theory Spec2Isabelle
  imports Main "HOL-Library.Word"
begin

section \<open>A recursive mutex on top of a semaphore (src/thread/generic/SDL_sysmutex.c)\<close>

text \<open>
  The file is modelled in the configuration where \<^verbatim>\<open>SDL_THREADS_DISABLED\<close> is not
  defined, i.e. the branches that do the work. One call of a function of the file is one
  function application of the model: it takes the object behind the \<^verbatim>\<open>SDL_Mutex *\<close>
  argument (\<open>None\<close> for a \<^verbatim>\<open>NULL\<close> pointer) and the result of
  \<^verbatim>\<open>SDL_GetCurrentThreadID()\<close>, and gives back the \<^verbatim>\<open>int\<close> it returns, the object
  as the call leaves it and the effects of the call in program order.
\<close>

subsection \<open>Collaborators that are not in the file\<close>

text \<open>
  Modelled from the spec: the type \<^verbatim>\<open>SDL_ThreadID\<close> is declared in a header that is not
  under src/. The spec calls it an opaque, equality-comparable identifier; the file only
  compares it with \<^verbatim>\<open>==\<close> and stores the constant \<^verbatim>\<open>0\<close> for "no owner", so an unsigned
  number of any width serves.
\<close>

type_synonym SDL_ThreadID = nat

text \<open>
  Modelled from the spec: the semaphore (\<^verbatim>\<open>SDL_CreateSemaphore\<close>, \<^verbatim>\<open>SDL_WaitSemaphore\<close>,
  \<^verbatim>\<open>SDL_PostSemaphore\<close>, \<^verbatim>\<open>SDL_DestroySemaphore\<close>) is not under src/. The spec gives it a
  count of tokens, \<open>create(initialCount)\<close>, a blocking \<open>wait()\<close> that takes one token, may
  fail with a wait-error and is the only suspension point, and \<open>post()\<close> that gives one
  token back. A wait that finds no token does not return by itself: that is the result
  \<open>WaitBlocks\<close>. Whether the platform makes creation or the wait fail is a parameter; a
  \<^verbatim>\<open>NULL\<close> handle has no token to take or to give back.
\<close>

record SDL_Semaphore =
  count :: nat

datatype wait_result =
    WaitReturns int "SDL_Semaphore option"
  | WaitBlocks

definition SDL_CreateSemaphore :: "bool \<Rightarrow> nat \<Rightarrow> SDL_Semaphore option" where
  "SDL_CreateSemaphore create_fails initial_value =
     (if create_fails then None else Some \<lparr>count = initial_value\<rparr>)"

definition SDL_WaitSemaphore :: "bool \<Rightarrow> SDL_Semaphore option \<Rightarrow> wait_result" where
  "SDL_WaitSemaphore wait_fails sp =
     (case sp of
        None \<Rightarrow> WaitReturns (- 1) None
      | Some s \<Rightarrow>
          if wait_fails then WaitReturns (- 1) (Some s)
          else if count s = 0 then WaitBlocks
          else WaitReturns 0 (Some (s\<lparr>count := count s - 1\<rparr>)))"

definition SDL_PostSemaphore :: "SDL_Semaphore option \<Rightarrow> SDL_Semaphore option" where
  "SDL_PostSemaphore sp =
     (case sp of None \<Rightarrow> None | Some s \<Rightarrow> Some (s\<lparr>count := count s + 1\<rparr>))"

text \<open>
  Modelled from the spec: \<^verbatim>\<open>SDL_SetError\<close> is not under src/. The spec has the ownership
  violation reported as "an error code plus a descriptive message": the call records the
  message and its value, which the caller returns, is the error code \<open>-1\<close>.
\<close>

definition SDL_SetError :: "string \<Rightarrow> int" where
  "SDL_SetError msg = - 1"

subsection \<open>The mutex\<close>

text \<open>
  \<^verbatim>\<open>struct SDL_Mutex { int recursive; SDL_ThreadID owner; SDL_Semaphore *sem; }\<close>.
  The counter is a 32-bit \<^verbatim>\<open>int\<close>: a word, read as a signed number by \<open>sint\<close>, on which
  \<^verbatim>\<open>++\<close> and \<^verbatim>\<open>--\<close> wrap around as the machine's two's-complement arithmetic does (C
  itself leaves the overflow of a signed counter undefined). The file only ever tests the
  counter against 0. The mutex is the only holder of its semaphore, so the field \<open>sem\<close>
  carries the semaphore object itself, \<open>None\<close> for a \<^verbatim>\<open>NULL\<close> handle.
\<close>

record SDL_Mutex =
  recursive :: "32 word"
  owner :: SDL_ThreadID
  sem :: "SDL_Semaphore option"

text \<open>
  The effects of a call, in program order: the calls into the allocator, the semaphore and
  the error reporting, and the stores to the fields of the mutex.
\<close>

datatype event =
    Calloc
  | Free
  | OutOfMemory
  | CreateSem nat
  | DestroySem
  | WaitSem
  | PostSem
  | SetError string
  | StoreSem
  | StoreRecursive "32 word"
  | StoreOwner SDL_ThreadID

text \<open>
  A call either returns, or its thread is suspended inside \<^verbatim>\<open>SDL_WaitSemaphore\<close>. A
  suspended call has changed nothing yet; it goes on from the wait once a token is
  there, which for a thread that is not the owner is what a new call does at that time.
\<close>

datatype outcome =
    Return int "SDL_Mutex option" "event list"
  | Suspended "SDL_Mutex option" "event list"

definition SDL_CreateMutex :: "bool \<Rightarrow> bool \<Rightarrow> SDL_Mutex option \<times> event list" where
  "SDL_CreateMutex calloc_fails create_fails =
     (if \<not> calloc_fails then
        (let m = \<lparr>recursive = 0, owner = 0, sem = None\<rparr>;
             m = m\<lparr>sem := SDL_CreateSemaphore create_fails 1\<rparr>;
             m = m\<lparr>recursive := 0\<rparr>;
             m = m\<lparr>owner := 0\<rparr>;
             es = [Calloc, CreateSem 1, StoreSem, StoreRecursive 0, StoreOwner 0]
         in if sem m = None then (None, es @ [Free]) else (Some m, es))
      else (None, [Calloc, OutOfMemory]))"

definition SDL_DestroyMutex :: "SDL_Mutex option \<Rightarrow> event list" where
  "SDL_DestroyMutex mutex =
     (case mutex of
        None \<Rightarrow> []
      | Some m \<Rightarrow> (if sem m \<noteq> None then [DestroySem] else []) @ [Free])"

definition SDL_LockMutex :: "bool \<Rightarrow> SDL_ThreadID \<Rightarrow> SDL_Mutex option \<Rightarrow> outcome" where
  "SDL_LockMutex wait_fails this_thread mutex =
     (case mutex of
        None \<Rightarrow> Return 0 None []
      | Some m \<Rightarrow>
          if owner m = this_thread then
            Return 0 (Some (m\<lparr>recursive := recursive m + 1\<rparr>))
              [StoreRecursive (recursive m + 1)]
          else
            (case SDL_WaitSemaphore wait_fails (sem m) of
               WaitBlocks \<Rightarrow> Suspended (Some m) [WaitSem]
             | WaitReturns rc sp \<Rightarrow>
                 Return 0 (Some (m\<lparr>sem := sp, owner := this_thread, recursive := 0\<rparr>))
                   [WaitSem, StoreOwner this_thread, StoreRecursive 0]))"

definition SDL_TryLockMutex :: "bool \<Rightarrow> SDL_ThreadID \<Rightarrow> SDL_Mutex option \<Rightarrow> outcome" where
  "SDL_TryLockMutex wait_fails this_thread mutex =
     (case mutex of
        None \<Rightarrow> Return 0 None []
      | Some m \<Rightarrow>
          if owner m = this_thread then
            Return 0 (Some (m\<lparr>recursive := recursive m + 1\<rparr>))
              [StoreRecursive (recursive m + 1)]
          else
            (case SDL_WaitSemaphore wait_fails (sem m) of
               WaitBlocks \<Rightarrow> Suspended (Some m) [WaitSem]
             | WaitReturns retval sp \<Rightarrow>
                 if retval = 0 then
                   Return retval (Some (m\<lparr>sem := sp, owner := this_thread, recursive := 0\<rparr>))
                     [WaitSem, StoreOwner this_thread, StoreRecursive 0]
                 else Return retval (Some (m\<lparr>sem := sp\<rparr>)) [WaitSem]))"

definition SDL_UnlockMutex :: "SDL_ThreadID \<Rightarrow> SDL_Mutex option \<Rightarrow> outcome" where
  "SDL_UnlockMutex this_thread mutex =
     (case mutex of
        None \<Rightarrow> Return 0 None []
      | Some m \<Rightarrow>
          if this_thread \<noteq> owner m then
            Return (SDL_SetError ''mutex not owned by this thread'') (Some m)
              [SetError ''mutex not owned by this thread'']
          else if recursive m \<noteq> 0 then
            Return 0 (Some (m\<lparr>recursive := recursive m - 1\<rparr>))
              [StoreRecursive (recursive m - 1)]
          else
            Return 0 (Some (m\<lparr>owner := 0, sem := SDL_PostSemaphore (sem m)\<rparr>))
              [StoreOwner 0, PostSem])"

subsection \<open>Reading an outcome, and sequences of calls\<close>

primrec mutex_of :: "outcome \<Rightarrow> SDL_Mutex option" where
  "mutex_of (Return rv mp es) = mp"
| "mutex_of (Suspended mp es) = mp"

primrec events_of :: "outcome \<Rightarrow> event list" where
  "events_of (Return rv mp es) = es"
| "events_of (Suspended mp es) = es"

primrec returned_ok :: "outcome \<Rightarrow> bool" where
  "returned_ok (Return rv mp es) = (rv = 0)"
| "returned_ok (Suspended mp es) = False"

text \<open>
  A step is one call of one of the three functions by a thread, on a platform where the
  wait fails or not. A sequence of steps runs each call on the mutex as the call before
  left it; a suspended call has left it unchanged.
\<close>

datatype call = Lock | TryLock | Unlock

type_synonym step = "bool \<times> SDL_ThreadID \<times> call"

fun thread_of :: "step \<Rightarrow> SDL_ThreadID" where
  "thread_of (wait_fails, t, c) = t"

fun perform :: "step \<Rightarrow> SDL_Mutex option \<Rightarrow> outcome" where
  "perform (wait_fails, t, Lock) mp = SDL_LockMutex wait_fails t mp"
| "perform (wait_fails, t, TryLock) mp = SDL_TryLockMutex wait_fails t mp"
| "perform (wait_fails, t, Unlock) mp = SDL_UnlockMutex t mp"

fun outcomes :: "step list \<Rightarrow> SDL_Mutex option \<Rightarrow> outcome list" where
  "outcomes [] mp = []"
| "outcomes (st # sts) mp = perform st mp # outcomes sts (mutex_of (perform st mp))"

fun state_after :: "step list \<Rightarrow> SDL_Mutex option \<Rightarrow> SDL_Mutex option" where
  "state_after [] mp = mp"
| "state_after (st # sts) mp = state_after sts (mutex_of (perform st mp))"

text \<open>The steps of one thread \<open>t\<close> whose waits do not fail.\<close>

definition by_thread :: "SDL_ThreadID \<Rightarrow> call list \<Rightarrow> step list" where
  "by_thread t cs = map (\<lambda>c. (False, t, c)) cs"



definition is_sem_op :: "event \<Rightarrow> bool" where
  "is_sem_op e =
     (case e of
        CreateSem n \<Rightarrow> True
      | DestroySem \<Rightarrow> True
      | WaitSem \<Rightarrow> True
      | PostSem \<Rightarrow> True
      | _ \<Rightarrow> False)"

text \<open>I2 of the spec: a positive recursion depth implies an owner.\<close>

definition I2 :: "SDL_Mutex option \<Rightarrow> bool" where
  "I2 mp = (case mp of None \<Rightarrow> True | Some m \<Rightarrow> 0 < sint (recursive m) \<longrightarrow> owner m \<noteq> 0)"

text \<open>
  The states of the spec's state machine, written over a mutex \<open>m\<close> whose semaphore \<open>s\<close>
  has a token: \<open>held m s t d\<close> is "held by \<open>t\<close> at depth \<open>d\<close>", the token taken;
  \<open>released m s\<close> is "free", the token back.
\<close>

abbreviation held :: "SDL_Mutex \<Rightarrow> SDL_Semaphore \<Rightarrow> SDL_ThreadID \<Rightarrow> nat \<Rightarrow> SDL_Mutex" where
  "held m s t d \<equiv> m\<lparr>sem := Some (s\<lparr>count := count s - 1\<rparr>), owner := t, recursive := of_nat d\<rparr>"

abbreviation released :: "SDL_Mutex \<Rightarrow> SDL_Semaphore \<Rightarrow> SDL_Mutex" where
  "released m s \<equiv> m\<lparr>sem := Some s, owner := 0, recursive := 0\<rparr>"

text \<open>
  Two concrete mutexes for the examples: \<open>fresh\<close> is the mutex as \<^verbatim>\<open>SDL_CreateMutex\<close>
  returns it, and \<open>taken t d\<close> is a mutex that thread \<open>t\<close> holds with the counter at \<open>d\<close>,
  the token of its semaphore taken.
\<close>

abbreviation fresh :: SDL_Mutex where
  "fresh \<equiv> \<lparr>recursive = 0, owner = 0, sem = Some \<lparr>count = 1\<rparr>\<rparr>"

abbreviation taken :: "SDL_ThreadID \<Rightarrow> 32 word \<Rightarrow> SDL_Mutex" where
  "taken t d \<equiv> \<lparr>recursive = d, owner = t, sem = Some \<lparr>count = 0\<rparr>\<rparr>"

section \<open>Helper lemmas\<close>

subsection \<open>Signed reading of the counter\<close>

lemma sint_succ:
  "sint (w :: 32 word) < 2147483647 \<Longrightarrow> sint (w + 1) = sint w + 1"
  using sint_ge [of w] by (simp add: sint_word_ariths signed_take_bit_int_eq_self)

subsection \<open>Sequences of calls by one thread\<close>

lemma state_after_append:
  "state_after (xs @ ys) mp = state_after ys (state_after xs mp)"
  by (induction xs arbitrary: mp) simp_all

lemma outcomes_append:
  "outcomes (xs @ ys) mp = outcomes xs mp @ outcomes ys (state_after xs mp)"
  by (induction xs arbitrary: mp) simp_all

lemma by_thread_append: "by_thread t (xs @ ys) = by_thread t xs @ by_thread t ys"
  by (simp add: by_thread_def)

lemma by_thread_Nil: "by_thread t [] = []"
  by (simp add: by_thread_def)

lemma by_thread_Cons: "by_thread t (c # cs) = (False, t, c) # by_thread t cs"
  by (simp add: by_thread_def)

lemma first_lock:
  assumes "owner m \<noteq> t" and "sem m = Some s" and "0 < count s"
  shows "SDL_LockMutex False t (Some m)
           = Return 0 (Some (held m s t 0)) [WaitSem, StoreOwner t, StoreRecursive 0]"
  using assms by (simp add: SDL_LockMutex_def SDL_WaitSemaphore_def)

lemma lock_again:
  assumes "owner m = t"
  shows "SDL_LockMutex fails t (Some m)
           = Return 0 (Some (m\<lparr>recursive := recursive m + 1\<rparr>))
               [StoreRecursive (recursive m + 1)]"
  using assms by (simp add: SDL_LockMutex_def)

lemma state_after_relocks:
  "owner m = t \<Longrightarrow>
   state_after (by_thread t (replicate n Lock)) (Some m)
     = Some (m\<lparr>recursive := recursive m + of_nat n\<rparr>)"
proof (induction n arbitrary: m)
  case 0
  then show ?case by (simp add: by_thread_Nil)
next
  case (Suc n)
  have "state_after (by_thread t (replicate (Suc n) Lock)) (Some m)
          = state_after (by_thread t (replicate n Lock)) (Some (m\<lparr>recursive := recursive m + 1\<rparr>))"
    using Suc.prems by (simp add: by_thread_Cons lock_again)
  also have "\<dots> = Some (m\<lparr>recursive := recursive m + 1 + of_nat n\<rparr>)"
    using Suc.prems by (simp add: Suc.IH)
  finally show ?case by (simp add: add.assoc add.commute)
qed

lemma outcomes_relocks_ok:
  "owner m = t \<Longrightarrow> list_all returned_ok (outcomes (by_thread t (replicate n Lock)) (Some m))"
proof (induction n arbitrary: m)
  case 0
  then show ?case by (simp add: by_thread_Nil)
next
  case (Suc n)
  then show ?case by (simp add: by_thread_Cons lock_again)
qed

lemma depth_nonzero:
  assumes "0 < d" and "d < 2 ^ 32"
  shows "(of_nat d :: 32 word) \<noteq> 0"
proof
  assume "(of_nat d :: 32 word) = 0"
  then have "2 ^ 32 dvd d" by (simp add: word_of_nat_eq_0_iff)
  with assms show False by (auto dest: dvd_imp_le)
qed

lemma inner_unlock:
  assumes "owner m = t" and "recursive m = of_nat d" and "0 < d" and "d < 2 ^ 32"
  shows "SDL_UnlockMutex t (Some m)
           = Return 0 (Some (m\<lparr>recursive := of_nat (d - 1)\<rparr>)) [StoreRecursive (of_nat (d - 1))]"
proof -
  have "recursive m \<noteq> 0" using assms depth_nonzero by simp
  moreover have "recursive m - 1 = of_nat (d - 1)"
    using assms by (simp add: of_nat_diff)
  ultimately show ?thesis using assms(1) by (simp add: SDL_UnlockMutex_def)
qed

lemma outermost_unlock:
  assumes "owner m = t" and "recursive m = 0"
  shows "SDL_UnlockMutex t (Some m)
           = Return 0 (Some (m\<lparr>owner := 0, sem := SDL_PostSemaphore (sem m)\<rparr>))
               [StoreOwner 0, PostSem]"
  using assms by (simp add: SDL_UnlockMutex_def)

lemma inner_unlocks:
  "owner m = t \<Longrightarrow> recursive m = of_nat d \<Longrightarrow> k \<le> d \<Longrightarrow> d < 2 ^ 32 \<Longrightarrow>
   state_after (by_thread t (replicate k Unlock)) (Some m) = Some (m\<lparr>recursive := of_nat (d - k)\<rparr>)
   \<and> list_all returned_ok (outcomes (by_thread t (replicate k Unlock)) (Some m))"
proof (induction k arbitrary: m d)
  case 0
  then show ?case by (simp add: by_thread_Nil)
next
  case (Suc k)
  let ?m' = "m\<lparr>recursive := of_nat (d - 1)\<rparr>"
  have step: "SDL_UnlockMutex t (Some m) = Return 0 (Some ?m') [StoreRecursive (of_nat (d - 1))]"
    using Suc.prems by (intro inner_unlock) simp_all
  have "owner ?m' = t" "recursive ?m' = of_nat (d - 1)" "k \<le> d - 1" "d - 1 < 2 ^ 32"
    using Suc.prems by simp_all
  from Suc.IH [OF this]
  have "state_after (by_thread t (replicate k Unlock)) (Some ?m')
          = Some (?m'\<lparr>recursive := of_nat (d - 1 - k)\<rparr>)"
    and "list_all returned_ok (outcomes (by_thread t (replicate k Unlock)) (Some ?m'))"
    by simp_all
  then show ?case by (simp add: by_thread_Cons step)
qed

subsection \<open>Try-lock and lock\<close>

text \<open>
  On a mutex with a semaphore, and as long as the wait does not fail, the two functions
  are the same function: both take the token with the blocking wait.
\<close>

lemma trylock_is_lock:
  assumes "sem m \<noteq> None"
  shows "SDL_TryLockMutex False t (Some m) = SDL_LockMutex False t (Some m)"
  using assms
  by (auto simp add: SDL_TryLockMutex_def SDL_LockMutex_def SDL_WaitSemaphore_def
      split: option.splits)

lemma trylock_suspends:
  assumes "owner m \<noteq> t" and "sem m = Some s" and "count s = 0"
  shows "SDL_TryLockMutex False t (Some m) = Suspended (Some m) [WaitSem]"
  using assms by (simp add: SDL_TryLockMutex_def SDL_WaitSemaphore_def)

subsection \<open>Preservation of I2 by each call\<close>

lemma I2_lock:
  assumes "t \<noteq> 0" and "I2 mp"
  shows "I2 (mutex_of (SDL_LockMutex fails t mp))"
  using assms
  by (auto simp add: I2_def SDL_LockMutex_def split: option.splits wait_result.splits)

lemma I2_trylock:
  assumes "t \<noteq> 0" and "I2 mp"
  shows "I2 (mutex_of (SDL_TryLockMutex fails t mp))"
  using assms
  by (auto simp add: I2_def SDL_TryLockMutex_def split: option.splits wait_result.splits)

lemma I2_unlock:
  assumes "t \<noteq> 0" and "I2 mp"
  shows "I2 (mutex_of (SDL_UnlockMutex t mp))"
  using assms
  by (auto simp add: I2_def SDL_UnlockMutex_def split: option.splits)

lemma I2_perform:
  assumes "thread_of st \<noteq> 0" and "I2 mp"
  shows "I2 (mutex_of (perform st mp))"
proof -
  obtain fails t c where st: "st = (fails, t, c)" by (cases st) auto
  with assms show ?thesis
    by (cases c) (simp_all add: I2_lock I2_trylock I2_unlock)
qed

lemma I2_state_after:
  "\<forall>st\<in>set sts. thread_of st \<noteq> 0 \<Longrightarrow> I2 mp \<Longrightarrow> I2 (state_after sts mp)"
  by (induction sts arbitrary: mp) (simp_all add: I2_perform)

lemma I2_create: "I2 (fst (SDL_CreateMutex calloc_fails create_fails))"
  by (simp add: I2_def SDL_CreateMutex_def Let_def split: option.splits)

section \<open>Null pointers\<close>

text \<open>
  C8. Locking, try-locking and unlocking a \<^verbatim>\<open>NULL\<close> mutex return 0 with no effect at all,
  whatever the thread and the platform; destroying a \<^verbatim>\<open>NULL\<close> mutex has no effect. None
  of the four has a failing branch on \<^verbatim>\<open>NULL\<close>.
\<close>

theorem null_mutex_is_noop:
  "SDL_LockMutex fails t None = Return 0 None []
   \<and> SDL_TryLockMutex fails t None = Return 0 None []
   \<and> SDL_UnlockMutex t None = Return 0 None []
   \<and> SDL_DestroyMutex None = []"
  by (simp add: SDL_LockMutex_def SDL_TryLockMutex_def SDL_UnlockMutex_def SDL_DestroyMutex_def)

section \<open>Creation\<close>

text \<open>
  C7. \<^verbatim>\<open>SDL_CreateMutex\<close> has three outcomes. When the allocation and the semaphore
  creation both succeed it returns a mutex with recursion depth 0, owner 0 (the
  sentinel) and a semaphore of count 1. When the semaphore creation fails it returns
  \<^verbatim>\<open>NULL\<close>, and the last thing it did is to free the storage it had allocated. When the
  allocation fails it returns \<^verbatim>\<open>NULL\<close> after reporting out of memory, and creates no
  semaphore.
\<close>

theorem create_mutex_cases:
  "SDL_CreateMutex False False
     = (Some \<lparr>recursive = 0, owner = 0, sem = Some \<lparr>count = 1\<rparr>\<rparr>,
        [Calloc, CreateSem 1, StoreSem, StoreRecursive 0, StoreOwner 0])
   \<and> SDL_CreateMutex False True
     = (None, [Calloc, CreateSem 1, StoreSem, StoreRecursive 0, StoreOwner 0, Free])
   \<and> SDL_CreateMutex True create_fails = (None, [Calloc, OutOfMemory])"
  by (simp add: SDL_CreateMutex_def SDL_CreateSemaphore_def)

section \<open>Re-entrant acquisition\<close>

text \<open>
  C3. When the owner of a mutex is the calling thread, \<^verbatim>\<open>SDL_LockMutex\<close> returns 0, the
  counter is the old counter plus one, the owner and the semaphore are as they were, and
  the only effect is the store to the counter: no semaphore operation. The plus one is
  that of the 32-bit counter; read as a signed number the counter grows by exactly one
  unless it was \<^verbatim>\<open>INT_MAX\<close>.
\<close>

theorem reentrant_lock_increments:
  assumes "owner m = t"
  shows "SDL_LockMutex fails t (Some m)
           = Return 0 (Some (m\<lparr>recursive := recursive m + 1\<rparr>))
               [StoreRecursive (recursive m + 1)]
       \<and> owner (m\<lparr>recursive := recursive m + 1\<rparr>) = owner m
       \<and> sem (m\<lparr>recursive := recursive m + 1\<rparr>) = sem m
       \<and> \<not> list_ex is_sem_op (events_of (SDL_LockMutex fails t (Some m)))
       \<and> (sint (recursive m) < 2147483647 \<longrightarrow>
            sint (recursive m + 1) = sint (recursive m) + 1)"
  using assms by (simp add: SDL_LockMutex_def is_sem_op_def sint_succ)

theorem reentrant_lock_increments_witness:
  "owner (taken 7 4) = 7
   \<and> SDL_LockMutex False 7 (Some (taken 7 4))
       = Return 0 (Some (taken 7 5))
           [StoreRecursive 5]
   \<and> sint (5 :: 32 word) = sint (4 :: 32 word) + 1"
  using reentrant_lock_increments
    [of "taken 7 4" 7 False]
  by simp

section \<open>Release by a thread that is not the owner\<close>

text \<open>
  C4. When the calling thread is not the owner of the mutex, \<^verbatim>\<open>SDL_UnlockMutex\<close> reports
  "mutex not owned by this thread", returns the error code and leaves the mutex as it
  was: counter, owner and semaphore. A free mutex has owner 0, so this is what every
  thread with an identity other than 0 gets on a free mutex.
\<close>

theorem unlock_by_non_owner:
  assumes "t \<noteq> owner m"
  shows "SDL_UnlockMutex t (Some m)
           = Return (- 1) (Some m) [SetError ''mutex not owned by this thread'']"
  using assms by (simp add: SDL_UnlockMutex_def SDL_SetError_def)

theorem unlock_by_non_owner_witness:
  "(3 :: nat) \<noteq> owner fresh
   \<and> SDL_UnlockMutex 3 (Some fresh)
       = Return (- 1) (Some fresh) [SetError ''mutex not owned by this thread'']
   \<and> (3 :: nat) \<noteq> owner (taken 5 2)
   \<and> SDL_UnlockMutex 3 (Some (taken 5 2))
       = Return (- 1) (Some (taken 5 2))
           [SetError ''mutex not owned by this thread'']"
  using unlock_by_non_owner [of 3 "fresh"]
    unlock_by_non_owner [of 3 "taken 5 2"]
  by simp

section \<open>Try-lock on a mutex held by another thread\<close>

text \<open>
  C2. \<^verbatim>\<open>SDL_TryLockMutex\<close> takes the token with \<^verbatim>\<open>SDL_WaitSemaphore\<close>, the blocking
  wait that \<^verbatim>\<open>SDL_LockMutex\<close> uses. On a mutex that thread 1 holds (no token left),
  the call by thread 2 does not return a "would block" status: it is suspended in the
  wait, with the mutex unchanged.
\<close>

theorem trylock_suspends_when_held_elsewhere:
  "SDL_TryLockMutex False 2 (Some \<lparr>recursive = 0, owner = 1, sem = Some \<lparr>count = 0\<rparr>\<rparr>)
     = Suspended (Some \<lparr>recursive = 0, owner = 1, sem = Some \<lparr>count = 0\<rparr>\<rparr>) [WaitSem]
   \<and> SDL_TryLockMutex False 2 (Some \<lparr>recursive = 0, owner = 1, sem = Some \<lparr>count = 0\<rparr>\<rparr>)
     = SDL_LockMutex False 2 (Some \<lparr>recursive = 0, owner = 1, sem = Some \<lparr>count = 0\<rparr>\<rparr>)"
  by (simp add: SDL_TryLockMutex_def SDL_LockMutex_def SDL_WaitSemaphore_def)

section \<open>The return value of lock\<close>

text \<open>
  C10. \<^verbatim>\<open>SDL_LockMutex\<close> never returns anything but 0, for a \<^verbatim>\<open>NULL\<close> mutex or any
  other. The one way for a call not to return at once is to be suspended in the wait,
  which happens exactly when another thread owns the mutex, the semaphore has no token
  and the wait does not fail; nothing has changed then. When the wait fails (the
  platform makes it fail, or the handle is \<^verbatim>\<open>NULL\<close>) the result of the wait is dropped:
  the call still stores the calling thread as owner and depth 0 and returns 0, and the
  semaphore is as it was, no token taken.
\<close>

theorem lock_returns_zero:
  "(case SDL_LockMutex fails t mp of
      Return rv mp' es \<Rightarrow> rv = 0
    | Suspended mp' es \<Rightarrow>
        mp' = mp \<and> \<not> fails
        \<and> (\<exists>m s. mp = Some m \<and> owner m \<noteq> t \<and> sem m = Some s \<and> count s = 0))
   \<and> (owner m \<noteq> t \<and> (fails \<or> sem m = None) \<longrightarrow>
        SDL_LockMutex fails t (Some m)
          = Return 0 (Some (m\<lparr>owner := t, recursive := 0\<rparr>))
              [WaitSem, StoreOwner t, StoreRecursive 0])"
  by (auto simp add: SDL_LockMutex_def SDL_WaitSemaphore_def split: option.splits)

theorem lock_returns_zero_witness:
  "owner (taken 1 3) \<noteq> 2
   \<and> SDL_LockMutex True 2 (Some (taken 1 3))
       = Return 0 (Some (taken 2 0))
           [WaitSem, StoreOwner 2, StoreRecursive 0]"
  using lock_returns_zero
    [where fails = True and t = 2
       and mp = "Some (taken 1 3)"
       and m = "taken 1 3"]
  by simp

section \<open>The order of the token and the owner\<close>




section \<open>I2: a positive depth implies an owner\<close>

text \<open>
  C9. I2 holds of what \<^verbatim>\<open>SDL_CreateMutex\<close> returns; each of \<^verbatim>\<open>SDL_LockMutex\<close>,
  \<^verbatim>\<open>SDL_TryLockMutex\<close> and \<^verbatim>\<open>SDL_UnlockMutex\<close>, called by a thread whose identity is not
  the sentinel 0, leaves a mutex that satisfies I2 when it was given one that does; so
  I2 holds after every sequence of such calls on a created mutex, whether the waits fail
  or not. The identity of a thread is never the sentinel: that is the contract of the
  thread identity in the spec.
\<close>

theorem I2_invariant:
  assumes "\<forall>st\<in>set sts. thread_of st \<noteq> 0" and "t \<noteq> 0"
  shows "I2 (fst (SDL_CreateMutex calloc_fails create_fails))
       \<and> (I2 mp \<longrightarrow> I2 (mutex_of (SDL_LockMutex fails t mp))
                  \<and> I2 (mutex_of (SDL_TryLockMutex fails t mp))
                  \<and> I2 (mutex_of (SDL_UnlockMutex t mp)))
       \<and> I2 (state_after sts (fst (SDL_CreateMutex calloc_fails create_fails)))"
  using assms by (simp add: I2_create I2_lock I2_trylock I2_unlock I2_state_after)

theorem I2_invariant_witness:
  "list_all (\<lambda>st. thread_of st \<noteq> 0) [(False, 1, Lock), (True, 1, TryLock), (False, 1, Lock)]
   \<and> (1 :: nat) \<noteq> 0
   \<and> state_after [(False, 1, Lock), (True, 1, TryLock), (False, 1, Lock)]
        (fst (SDL_CreateMutex False False))
       = Some (taken 1 2)
   \<and> 0 < sint (recursive (taken 1 2)) \<and> owner (taken 1 2) \<noteq> 0 \<and> I2 (Some (taken 1 2))
   \<and> mutex_of (SDL_UnlockMutex 1 (Some (taken 1 2))) = Some (taken 1 1)
   \<and> 0 < sint (recursive (taken 1 1)) \<and> owner (taken 1 1) \<noteq> 0 \<and> I2 (Some (taken 1 1))"
  using I2_invariant
    [where sts = "[(False, 1, Lock), (True, 1, TryLock), (False, 1, Lock)]"
       and t = 1 and calloc_fails = False and create_fails = False and fails = False
       and mp = "Some (taken 1 2)"]
  by (simp add: I2_def SDL_CreateMutex_def SDL_CreateSemaphore_def SDL_LockMutex_def
      SDL_TryLockMutex_def SDL_UnlockMutex_def SDL_WaitSemaphore_def)

section \<open>N acquisitions, N releases\<close>

text \<open>
  C5, as the code has it. Thread \<open>t\<close> finds the mutex not its own and a token in the
  semaphore, and calls \<^verbatim>\<open>SDL_LockMutex\<close> \<open>N\<close> times, then \<^verbatim>\<open>SDL_UnlockMutex\<close> \<open>N\<close> times,
  with \<open>1 \<le> N \<le> 2^32\<close>. All \<open>2N\<close> calls return 0. After the \<open>N\<close> acquisitions and \<open>k < N\<close>
  releases the owner is still \<open>t\<close> and the depth is \<open>N - 1 - k\<close>. Each of the first
  \<open>N - 1\<close> releases only stores the decremented depth, with no semaphore operation; the
  \<open>N\<close>-th, at depth 0, stores 0 to the owner and posts; after it the mutex is free, the
  token back. The bound on \<open>N\<close> is that of the 32-bit counter; it contains every \<open>N\<close> up
  to \<open>2^31\<close>, for which the signed counter does not overflow at all.
\<close>

theorem recursion_round_trip:
  assumes "1 \<le> N" and "N \<le> 2 ^ 32" and "t \<noteq> 0"
    and "owner m \<noteq> t" and "sem m = Some s" and "0 < count s"
  shows "list_all returned_ok
           (outcomes (by_thread t (replicate N Lock @ replicate N Unlock)) (Some m))
       \<and> (\<forall>k<N. state_after (by_thread t (replicate N Lock @ replicate k Unlock)) (Some m)
                   = Some (held m s t (N - 1 - k))
                 \<and> owner (held m s t (N - 1 - k)) \<noteq> 0)
       \<and> (\<forall>k<N - 1. SDL_UnlockMutex t (Some (held m s t (N - 1 - k)))
                   = Return 0 (Some (held m s t (N - 2 - k)))
                       [StoreRecursive (of_nat (N - 2 - k))])
       \<and> SDL_UnlockMutex t (Some (held m s t 0))
           = Return 0 (Some (released m s)) [StoreOwner 0, PostSem]
       \<and> state_after (by_thread t (replicate N Lock @ replicate N Unlock)) (Some m)
           = Some (released m s)"
proof -
  obtain n where N: "N = Suc n" using assms(1) by (cases N) simp_all
  have n: "n < 2 ^ 32" using assms(2) N by simp
  have first: "SDL_LockMutex False t (Some m)
                 = Return 0 (Some (held m s t 0)) [WaitSem, StoreOwner t, StoreRecursive 0]"
    using assms by (intro first_lock)
  have locks: "state_after (by_thread t (replicate N Lock)) (Some m) = Some (held m s t n)"
    unfolding N by (simp add: by_thread_Cons first state_after_relocks)
  have locks_ok: "list_all returned_ok (outcomes (by_thread t (replicate N Lock)) (Some m))"
    unfolding N by (simp add: by_thread_Cons first outcomes_relocks_ok)
  have inner: "state_after (by_thread t (replicate k Unlock)) (Some (held m s t n))
                 = Some (held m s t (n - k))"
    and inner_ok: "list_all returned_ok
                     (outcomes (by_thread t (replicate k Unlock)) (Some (held m s t n)))"
    if "k \<le> n" for k
    using inner_unlocks [of "held m s t n" t n k] that n by simp_all
  have last: "SDL_UnlockMutex t (Some (held m s t 0))
                = Return 0 (Some (released m s)) [StoreOwner 0, PostSem]"
    using assms(6) by (simp add: SDL_UnlockMutex_def SDL_PostSemaphore_def)
  have split: "state_after (by_thread t (replicate N Lock @ cs)) (Some m)
                 = state_after (by_thread t cs) (Some (held m s t n))" for cs
    by (simp only: by_thread_append state_after_append locks)
  have B: "state_after (by_thread t (replicate N Lock @ replicate k Unlock)) (Some m)
             = Some (held m s t (N - 1 - k))" if "k < N" for k
  proof -
    have k: "k \<le> n" and d: "N - 1 - k = n - k" using that N by simp_all
    have "state_after (by_thread t (replicate N Lock @ replicate k Unlock)) (Some m)
            = state_after (by_thread t (replicate k Unlock)) (Some (held m s t n))"
      by (rule split)
    also have "\<dots> = Some (held m s t (n - k))" by (rule inner [OF k])
    finally show ?thesis by (simp only: d)
  qed
  have C: "SDL_UnlockMutex t (Some (held m s t (N - 1 - k)))
             = Return 0 (Some (held m s t (N - 2 - k))) [StoreRecursive (of_nat (N - 2 - k))]"
    if "k < N - 1" for k
  proof -
    have "SDL_UnlockMutex t (Some (held m s t (n - k)))
            = Return 0 (Some ((held m s t (n - k))\<lparr>recursive := of_nat (n - k - 1)\<rparr>))
                [StoreRecursive (of_nat (n - k - 1))]"
      using that n N by (intro inner_unlock) simp_all
    then show ?thesis using N by simp
  qed
  have unlocks: "replicate N Unlock = replicate n Unlock @ [Unlock]"
    unfolding N by (simp add: replicate_append_same)
  have n0: "n - n = 0" by simp
  have E: "state_after (by_thread t (replicate N Lock @ replicate N Unlock)) (Some m)
             = Some (released m s)"
  proof -
    have "state_after (by_thread t (replicate N Lock @ replicate N Unlock)) (Some m)
            = state_after (by_thread t [Unlock])
                (state_after (by_thread t (replicate n Unlock)) (Some (held m s t n)))"
      by (simp only: unlocks by_thread_append state_after_append locks)
    also have "\<dots> = state_after (by_thread t [Unlock]) (Some (held m s t 0))"
      using inner [of n] by (simp only: n0 order_refl simp_thms)
    also have "\<dots> = Some (released m s)"
      using last by (simp add: by_thread_Cons by_thread_Nil)
    finally show ?thesis .
  qed
  have A: "list_all returned_ok
             (outcomes (by_thread t (replicate N Lock @ replicate N Unlock)) (Some m))"
  proof -
    have "outcomes (by_thread t (replicate N Lock @ replicate N Unlock)) (Some m)
            = outcomes (by_thread t (replicate N Lock)) (Some m)
              @ outcomes (by_thread t (replicate n Unlock)) (Some (held m s t n))
              @ outcomes (by_thread t [Unlock])
                  (state_after (by_thread t (replicate n Unlock)) (Some (held m s t n)))"
      by (simp only: unlocks by_thread_append outcomes_append locks)
    also have "state_after (by_thread t (replicate n Unlock)) (Some (held m s t n))
                 = Some (held m s t 0)"
      using inner [of n] by (simp only: n0 order_refl simp_thms)
    finally have "outcomes (by_thread t (replicate N Lock @ replicate N Unlock)) (Some m)
            = outcomes (by_thread t (replicate N Lock)) (Some m)
              @ outcomes (by_thread t (replicate n Unlock)) (Some (held m s t n))
              @ outcomes (by_thread t [Unlock]) (Some (held m s t 0))" .
    moreover have "list_all returned_ok (outcomes (by_thread t [Unlock]) (Some (held m s t 0)))"
      using last by (simp add: by_thread_Cons by_thread_Nil)
    moreover have "list_all returned_ok
                     (outcomes (by_thread t (replicate n Unlock)) (Some (held m s t n)))"
      by (rule inner_ok) simp
    ultimately show ?thesis using locks_ok by (simp only: list_all_append simp_thms)
  qed
  have "owner (held m s t d) \<noteq> 0" for d using assms(3) by simp
  with A B C last E show ?thesis by blast
qed

theorem recursion_round_trip_witness:
  "(1 :: nat) \<le> 3 \<and> (3 :: nat) \<le> 2 ^ 32 \<and> (1 :: nat) \<noteq> 0
   \<and> owner fresh \<noteq> 1 \<and> sem fresh = Some \<lparr>count = 1\<rparr> \<and> 0 < count \<lparr>count = 1\<rparr>
   \<and> state_after (by_thread 1 (replicate 3 Lock @ replicate 0 Unlock)) (Some fresh)
       = Some (taken 1 2)
   \<and> SDL_UnlockMutex 1 (Some (taken 1 2))
       = Return 0 (Some (taken 1 1))
           [StoreRecursive 1]
   \<and> state_after (by_thread 1 (replicate 3 Lock @ replicate 2 Unlock)) (Some fresh)
       = Some (taken 1 0)
   \<and> SDL_UnlockMutex 1 (Some (taken 1 0))
       = Return 0 (Some fresh) [StoreOwner 0, PostSem]
   \<and> state_after (by_thread 1 (replicate 3 Lock @ replicate 3 Unlock)) (Some fresh)
       = Some fresh"
proof -
  have h: "(1 :: nat) \<le> 3" "(3 :: nat) \<le> 2 ^ 32" "(1 :: nat) \<noteq> 0"
    "owner fresh \<noteq> 1" "sem fresh = Some \<lparr>count = 1\<rparr>" "0 < count \<lparr>count = 1\<rparr>"
    by simp_all
  note rt = recursion_round_trip [OF h]
  have B: "state_after (by_thread 1 (replicate 3 Lock @ replicate k Unlock)) (Some fresh)
             = Some (held fresh \<lparr>count = 1\<rparr> 1 (3 - 1 - k))" if "k < 3" for k
    using rt that by blast
  have C: "SDL_UnlockMutex 1 (Some (held fresh \<lparr>count = 1\<rparr> 1 (3 - 1 - k)))
             = Return 0 (Some (held fresh \<lparr>count = 1\<rparr> 1 (3 - 2 - k)))
                 [StoreRecursive (of_nat (3 - 2 - k))]" if "k < 3 - 1" for k
    using rt that by blast
  have D: "SDL_UnlockMutex 1 (Some (held fresh \<lparr>count = 1\<rparr> 1 0))
             = Return 0 (Some (released fresh \<lparr>count = 1\<rparr>)) [StoreOwner 0, PostSem]"
    using rt by blast
  have E: "state_after (by_thread 1 (replicate 3 Lock @ replicate 3 Unlock)) (Some fresh)
             = Some (released fresh \<lparr>count = 1\<rparr>)"
    using rt by blast
  show ?thesis using B [of 0] B [of 2] C [of 0] D E by simp
qed

text \<open>
  C5, as the spec has it for every \<open>N\<close>, fails beyond the range of the counter. After
  \<open>2^32 + 1\<close> acquisitions, each of which returned 0, the counter has wrapped around to
  0, and the first release already frees the mutex: it is back in the state in which
  it was created.
\<close>

theorem recursion_round_trip_counterexample:
  "list_all returned_ok
     (outcomes (by_thread 1 (replicate 4294967297 Lock @ replicate 1 Unlock)) (Some fresh))
   \<and> state_after (by_thread 1 (replicate 4294967297 Lock @ replicate 1 Unlock)) (Some fresh)
       = Some fresh"
proof -
  let ?h = "taken 1 0"
  have N: "replicate 4294967297 Lock = Lock # replicate 4294967296 Lock"
    by (simp add: replicate_Suc [symmetric] del: replicate_Suc)
  have first: "SDL_LockMutex False 1 (Some fresh)
                 = Return 0 (Some ?h) [WaitSem, StoreOwner 1, StoreRecursive 0]"
    by (simp add: SDL_LockMutex_def SDL_WaitSemaphore_def)
  have wrap: "(of_nat 4294967296 :: 32 word) = 0" by simp
  have locks: "state_after (by_thread 1 (replicate 4294967296 Lock)) (Some ?h) = Some ?h"
    using state_after_relocks [of ?h 1 4294967296] by (simp only: wrap) simp
  have locks_ok: "list_all returned_ok (outcomes (by_thread 1 (replicate 4294967296 Lock)) (Some ?h))"
    by (rule outcomes_relocks_ok) simp
  have unlock: "SDL_UnlockMutex 1 (Some ?h) = Return 0 (Some fresh) [StoreOwner 0, PostSem]"
    by (simp add: SDL_UnlockMutex_def SDL_PostSemaphore_def)
  have all_locks: "state_after (by_thread 1 (replicate 4294967297 Lock)) (Some fresh) = Some ?h"
    by (simp only: N by_thread_Cons state_after.simps perform.simps first mutex_of.simps locks)
  have all_locks_ok:
    "list_all returned_ok (outcomes (by_thread 1 (replicate 4294967297 Lock)) (Some fresh))"
    using locks_ok
    by (simp only: N by_thread_Cons outcomes.simps perform.simps first mutex_of.simps
        list.pred_inject returned_ok.simps simp_thms)
  have one: "by_thread 1 (replicate 1 Unlock) = [(False, 1, Unlock)]"
    by (simp add: by_thread_def)
  show ?thesis
    using all_locks_ok
    by (simp only: by_thread_append state_after_append outcomes_append all_locks one
        state_after.simps outcomes.simps perform.simps unlock mutex_of.simps
        list_all_append list.pred_inject returned_ok.simps simp_thms)
qed

end
